theory Spec2Isabelle
  imports Main "HOL-Library.AList"
begin

section \<open>The lineage queries of ZenMLMetadataStore\<close>

text \<open>
  A shallow embedding of \<^verbatim>\<open>zenml/core/metadata/metadata_wrapper.py\<close>: the
  component status resolver, the cache-chain tracer and the outcome query engine of
  class \<^verbatim>\<open>ZenMLMetadataStore\<close>. Every method reads the backend through
  \<^verbatim>\<open>self.store\<close> only, so the backend is a parameter: a record of the query
  functions the methods call. A raise of the source is a value \<open>Inl err\<close>, a return
  is \<open>Inr v\<close>.
\<close>

subsection \<open>Data model\<close>

text \<open>
  The four entity kinds of the metadata backend, with the attributes the source reads:
  \<^verbatim>\<open>c.id\<close>, \<^verbatim>\<open>c.name\<close>; \<^verbatim>\<open>e.id\<close>, \<^verbatim>\<open>e.properties\<close>;
  \<^verbatim>\<open>e.artifact_id\<close>, \<^verbatim>\<open>e.execution_id\<close>, \<^verbatim>\<open>e.type\<close>;
  \<^verbatim>\<open>a.id\<close>, \<^verbatim>\<open>a.uri\<close>.
\<close>

record md_context =
  c_id :: int
  c_name :: string

record md_execution =
  e_id :: int
  e_properties :: "(string \<times> string) list"

record md_event =
  ev_artifact_id :: int
  ev_execution_id :: int
  ev_type :: int

record md_artifact =
  a_id :: int
  a_uri :: string

text \<open>
  \<^verbatim>\<open>e.properties[key].string_value\<close>: the property bag is a protobuf map, which
  answers a missing key with a default value, whose string is empty.
\<close>

definition string_value :: "(string \<times> string) list \<Rightarrow> string \<Rightarrow> string" where
  "string_value props key = (case map_of props key of None \<Rightarrow> [] | Some v \<Rightarrow> v)"

definition component_id :: "md_execution \<Rightarrow> string" where
  "component_id e = string_value (e_properties e) ''component_id''"

definition state :: "md_execution \<Rightarrow> string" where
  "state e = string_value (e_properties e) ''state''"

text \<open>
  The exceptions the modelled methods can raise: the explicit
  \<^verbatim>\<open>raise Exception(msg)\<close>, a failed \<^verbatim>\<open>assert\<close>, an attribute read on
  \<^verbatim>\<open>None\<close>, an index out of range, the read of a local variable that was never
  assigned, the read of a global name that is not bound, and the interpreter's error
  when the depth of nested calls exceeds its limit.
\<close>

datatype error =
    PyException string
  | AssertionError
  | AttributeError
  | IndexError
  | UnboundLocalError
  | NameError
  | RecursionError

text \<open>
  The argument \<^verbatim>\<open>context_name\<close> of the lookup by type and name: the source passes a
  name where the caller gave one, and a context id in \<^verbatim>\<open>get_outcomes\<close>
  (\<^verbatim>\<open>get_outcomes_in_context(c_id, ...)\<close>).
\<close>

datatype name_arg = Name string | Ident int

text \<open>
  The backend \<^verbatim>\<open>self.store\<close>, as the queries the source issues. The lookup by
  type and name answers \<^verbatim>\<open>None\<close> when there is no such context; every other
  query answers a list.
\<close>

record store =
  get_context_by_type_and_name :: "string \<Rightarrow> name_arg \<Rightarrow> md_context option"
  get_contexts :: "md_context list"
  get_executions :: "md_execution list"
  get_executions_by_context :: "int \<Rightarrow> md_execution list"
  get_executions_by_id :: "int list \<Rightarrow> md_execution list"
  get_events_by_execution_ids :: "int list \<Rightarrow> md_event list"
  get_events_by_artifact_ids :: "int list \<Rightarrow> md_event list"
  get_artifacts_by_id :: "int list \<Rightarrow> md_artifact list"
  get_contexts_by_execution :: "int \<Rightarrow> md_context list"

subsection \<open>Python dictionaries\<close>

text \<open>
  A \<^verbatim>\<open>dict\<close> is an association list with distinct keys in insertion order;
  storing under a key that is present overwrites its value in place
  (\<^const>\<open>AList.update\<close>). A dict comprehension stores its pairs from left to right.
\<close>

definition dict_of :: "('k \<times> 'v) list \<Rightarrow> ('k \<times> 'v) list" where
  "dict_of kvs = foldl (\<lambda>d kv. AList.update (fst kv) (snd kv) d) [] kvs"

subsection \<open>Component status resolver\<close>

definition get_pipeline_context :: "store \<Rightarrow> string \<Rightarrow> md_context option" where
  "get_pipeline_context s pipeline_name =
     get_context_by_type_and_name s ''pipeline'' (Name pipeline_name)"

text \<open>\<^verbatim>\<open>c.id\<close> raises AttributeError when the lookup answered \<^verbatim>\<open>None\<close>.\<close>

definition get_pipeline_executions :: "store \<Rightarrow> string \<Rightarrow> error + md_execution list" where
  "get_pipeline_executions s pipeline_name =
     (case get_pipeline_context s pipeline_name of
        None \<Rightarrow> Inl AttributeError
      | Some c \<Rightarrow> Inr (get_executions_by_context s (c_id c)))"

definition get_components_status :: "store \<Rightarrow> string \<Rightarrow> error + (string \<times> string) list" where
  "get_components_status s pipeline_name =
     (case get_pipeline_executions s pipeline_name of
        Inl err \<Rightarrow> Inl err
      | Inr pipeline_executions \<Rightarrow>
          Inr (dict_of (map (\<lambda>e. (component_id e, state e)) pipeline_executions)))"

text \<open>
  The loop of \<^verbatim>\<open>get_pipeline_status\<close>. Iterating a dict yields its keys, so
  \<open>status\<close> runs over the component ids; the test is the source's
  \<^verbatim>\<open>status != 'complete' or status != 'cached'\<close>.
\<close>

fun status_loop :: "string list \<Rightarrow> string" where
  "status_loop [] = ''Succeeded''"
| "status_loop (status # rest) =
     (if status \<noteq> ''complete'' \<or> status \<noteq> ''cached'' then ''Running''
      else status_loop rest)"

definition get_pipeline_status :: "store \<Rightarrow> string \<Rightarrow> error + string" where
  "get_pipeline_status s pipeline_name =
     (case get_components_status s pipeline_name of
        Inl err \<Rightarrow> Inl err
      | Inr components_status \<Rightarrow> Inr (status_loop (map fst components_status)))"

subsection \<open>Cache-chain tracer\<close>

text \<open>
  \<^verbatim>\<open>full.split('.')\<close>: Python's split at every occurrence of the separator;
  the result always has at least one piece.
\<close>

fun split_on :: "char \<Rightarrow> string \<Rightarrow> string list" where
  "split_on sep [] = [[]]"
| "split_on sep (x # xs) =
     (if x = sep then [] # split_on sep xs
      else (case split_on sep xs of
              [] \<Rightarrow> [[x]]
            | w # ws \<Rightarrow> (x # w) # ws))"

text \<open>\<^verbatim>\<open>full.split('.')[1]\<close> raises IndexError when the id has no dot.\<close>

definition instance_name :: "string \<Rightarrow> error + string" where
  "instance_name full =
     (case split_on (CHR ''.'') full of
        _ # seg # _ \<Rightarrow> Inr seg
      | _ \<Rightarrow> Inl IndexError)"

text \<open>
  The loop of \<^verbatim>\<open>get_execution_by_component_type\<close>: the first execution whose
  instance name is the wanted one is returned; falling off the loop returns
  \<^verbatim>\<open>None\<close>.
\<close>

fun first_of_component_type :: "md_execution list \<Rightarrow> string \<Rightarrow> error + md_execution option" where
  "first_of_component_type [] wanted = Inr None"
| "first_of_component_type (e # execs) wanted =
     (case instance_name (component_id e) of
        Inl err \<Rightarrow> Inl err
      | Inr seg \<Rightarrow> if seg = wanted then Inr (Some e) else first_of_component_type execs wanted)"

definition get_execution_by_component_type ::
  "store \<Rightarrow> string \<Rightarrow> string \<Rightarrow> error + md_execution option" where
  "get_execution_by_component_type s ctx wanted =
     (case get_context_by_type_and_name s ''run'' (Name ctx) of
        None \<Rightarrow> Inl AttributeError
      | Some c \<Rightarrow> first_of_component_type (get_executions_by_context s (c_id c)) wanted)"

text \<open>
  The names bound in the global namespace of the module: its imports (lines 27 to 33)
  and the class it defines.
\<close>

definition module_globals :: "string list" where
  "module_globals =
     [''Text'', ''List'', ''Dict'', ''pd'', ''metadata_store'', ''metadata_store_pb2'',
      ''PipelineStatusTypes'', ''ZenMLMetadataStore'']"

text \<open>
  Modelled from the spec: the enum \<^verbatim>\<open>ExecutionStates\<close> is declared outside the
  given sources; the spec gives its members as running, complete, cached and failed,
  so the name of its member \<^verbatim>\<open>cached\<close> is the string cached.
  The expression \<^verbatim>\<open>ExecutionStates.cached.name\<close> (lines 424 and 448) first reads
  the global name \<^verbatim>\<open>ExecutionStates\<close>; the module binds no such name, and the
  read of an unbound global raises NameError.
\<close>

definition ExecutionStates_cached_name :: "error + string" where
  "ExecutionStates_cached_name =
     (if ''ExecutionStates'' \<in> set module_globals then Inr ''cached'' else Inl NameError)"

text \<open>
  Lines 438 to 441: the loop that appends the artifact id of every event of type 4
  to \<^verbatim>\<open>artifacts_ids\<close>.
\<close>

fun collect_output_ids :: "md_event list \<Rightarrow> int list \<Rightarrow> int list" where
  "collect_output_ids [] artifacts_ids = artifacts_ids"
| "collect_output_ids (e # events) artifacts_ids =
     collect_output_ids events
       (if ev_type e = 4 then artifacts_ids @ [ev_artifact_id e] else artifacts_ids)"

text \<open>
  \<^verbatim>\<open>find_original_context_and_artifacts_from_exec\<close>. The method calls itself
  with no bound of its own; the interpreter bounds the depth of nested calls
  (\<^verbatim>\<open>sys.getrecursionlimit\<close>), so the model takes the depth that is still
  available, and a call with none left raises RecursionError.
  \<open>Inl err\<close> is a raise, \<open>Inr None\<close> the return of \<^verbatim>\<open>None\<close> when the loop over
  \<^verbatim>\<open>new_events\<close> ends without a type-4 event, and
  \<open>Inr (Some (context, artifacts))\<close> the return of the pair.
  The statements run in the order of the source: the events are fetched and the
  output artifact ids collected (lines 435 to 444), then the test of line 447
  evaluates \<^verbatim>\<open>ExecutionStates.cached.name\<close>.
  \<^verbatim>\<open>artifact_id\<close> is assigned only when \<^verbatim>\<open>artifacts_ids\<close> is not empty, so
  its read in the cached branch raises UnboundLocalError otherwise.
\<close>

fun find_original_context_and_artifacts_from_exec ::
  "nat \<Rightarrow> store \<Rightarrow> md_execution \<Rightarrow> error + (string \<times> md_artifact list) option" where
  "find_original_context_and_artifacts_from_exec 0 s execution = Inl RecursionError"
| "find_original_context_and_artifacts_from_exec (Suc n) s execution =
     (let events = get_events_by_execution_ids s [e_id execution];
          artifacts_ids = collect_output_ids events []
      in case ExecutionStates_cached_name of
           Inl err \<Rightarrow> Inl err
         | Inr cached_name \<Rightarrow>
             if state execution = cached_name then
               (if artifacts_ids = [] then Inl UnboundLocalError
                else
                  (case find (\<lambda>e. ev_type e = 4)
                          (get_events_by_artifact_ids s [last artifacts_ids]) of
                     None \<Rightarrow> Inr None
                   | Some e \<Rightarrow>
                       (case get_executions_by_id s [ev_execution_id e] of
                          [] \<Rightarrow> Inl IndexError
                        | x # _ \<Rightarrow> find_original_context_and_artifacts_from_exec n s x)))
             else
               (case get_contexts_by_execution s (e_id execution) of
                  [] \<Rightarrow> Inl IndexError
                | c # _ \<Rightarrow> Inr (Some (c_name c, get_artifacts_by_id s artifacts_ids))))"

text \<open>
  \<^verbatim>\<open>find_original_context_and_artifacts_from_context\<close>: when the lookup returned
  \<^verbatim>\<open>None\<close>, the tracer is entered with it, and its first statement reads
  \<^verbatim>\<open>execution.id\<close> and raises AttributeError.
\<close>

definition find_original_context_and_artifacts_from_context ::
  "nat \<Rightarrow> store \<Rightarrow> string \<Rightarrow> string \<Rightarrow> error + (string \<times> md_artifact list) option" where
  "find_original_context_and_artifacts_from_context n s ctx component_type =
     (case get_execution_by_component_type s ctx component_type of
        Inl err \<Rightarrow> Inl err
      | Inr None \<Rightarrow> (case n of 0 \<Rightarrow> Inl RecursionError | Suc _ \<Rightarrow> Inl AttributeError)
      | Inr (Some execution) \<Rightarrow> find_original_context_and_artifacts_from_exec n s execution)"

subsection \<open>Outcome query engine\<close>

text \<open>
  An optional list argument (\<^verbatim>\<open>None\<close> by default) is tested by its truth value:
  \<^verbatim>\<open>None\<close> and the empty list are both false.
\<close>

definition truthy :: "'a list option \<Rightarrow> bool" where
  "truthy arg = (case arg of None \<Rightarrow> False | Some xs \<Rightarrow> xs \<noteq> [])"

definition items :: "'a list option \<Rightarrow> 'a list" where
  "items arg = (case arg of None \<Rightarrow> [] | Some xs \<Rightarrow> xs)"

text \<open>
  \<^verbatim>\<open>list_registered_components\<close> builds a list from a set; the order of the list
  is not fixed by the source, which only tests membership in it.
\<close>

definition list_registered_components :: "store \<Rightarrow> string list" where
  "list_registered_components s = remdups (map component_id (get_executions s))"

definition filter_executions_by_component :: "store \<Rightarrow> string \<Rightarrow> error + md_execution list" where
  "filter_executions_by_component s component =
     (if component \<in> set (list_registered_components s)
      then Inr (filter (\<lambda>e. component_id e = component) (get_executions s))
      else Inl AssertionError)"

record condition =
  component :: string
  property_name :: string
  cond_value :: string

definition filter_executions_by_condition :: "store \<Rightarrow> condition \<Rightarrow> error + md_execution list" where
  "filter_executions_by_condition s cond =
     (case filter_executions_by_component s (component cond) of
        Inl err \<Rightarrow> Inl err
      | Inr executions \<Rightarrow>
          Inr (filter (\<lambda>e. string_value (e_properties e) (property_name cond) = cond_value cond)
                 executions))"

text \<open>
  \<^verbatim>\<open>map_execution_to_context\<close>: the first context of every execution, in order;
  \<^verbatim>\<open>[0]\<close> raises IndexError at the first execution that has none.
\<close>

fun map_execution_to_context :: "store \<Rightarrow> md_execution list \<Rightarrow> error + md_context list" where
  "map_execution_to_context s [] = Inr []"
| "map_execution_to_context s (e # executions) =
     (case get_contexts_by_execution s (e_id e) of
        [] \<Rightarrow> Inl IndexError
      | c # _ \<Rightarrow>
          (case map_execution_to_context s executions of
             Inl err \<Rightarrow> Inl err
           | Inr cs \<Rightarrow> Inr (c # cs)))"

definition list_contexts_by_condition :: "store \<Rightarrow> condition \<Rightarrow> error + md_context list" where
  "list_contexts_by_condition s cond =
     (case filter_executions_by_condition s cond of
        Inl err \<Rightarrow> Inl err
      | Inr executions \<Rightarrow> map_execution_to_context s executions)"

definition extract_uris :: "('k \<times> md_artifact list) list \<Rightarrow> ('k \<times> string list) list" where
  "extract_uris result = dict_of (map (\<lambda>kv. (fst kv, map a_uri (snd kv))) result)"

definition get_outcomes_in_context ::
  "store \<Rightarrow> name_arg \<Rightarrow> string list option \<Rightarrow> error + (string \<times> md_artifact list) list" where
  "get_outcomes_in_context s ctx output_components =
     (let output_ids = (if truthy output_components then items output_components
                        else list_registered_components s)
      in case get_context_by_type_and_name s ''run'' ctx of
           None \<Rightarrow> Inl AttributeError
         | Some c \<Rightarrow>
             (let execs_in_context = get_executions_by_context s (c_id c);
                  execs_components =
                    dict_of (map (\<lambda>e. (component_id e, e_id e))
                               (filter (\<lambda>e. component_id e \<in> set output_ids) execs_in_context))
              in Inr (dict_of
                        (map (\<lambda>kv. (fst kv,
                                get_artifacts_by_id s
                                  (map ev_artifact_id
                                     (filter (\<lambda>e. ev_type e = 4)
                                        (get_events_by_execution_ids s [snd kv])))))
                           execs_components))))"

text \<open>
  Lines 354 to 365 of \<^verbatim>\<open>get_outcomes\<close>: the initial \<^verbatim>\<open>target_context_ids\<close>.
\<close>

fun ids_of_named_contexts :: "store \<Rightarrow> string list \<Rightarrow> error + int list" where
  "ids_of_named_contexts s [] = Inr []"
| "ids_of_named_contexts s (c # contexts) =
     (case get_context_by_type_and_name s ''run'' (Name c) of
        None \<Rightarrow> Inl AttributeError
      | Some found \<Rightarrow>
          (case ids_of_named_contexts s contexts of
             Inl err \<Rightarrow> Inl err
           | Inr ids \<Rightarrow> Inr (c_id found # ids)))"

definition initial_target_context_ids ::
  "store \<Rightarrow> string list option \<Rightarrow> string list option \<Rightarrow> error + int list" where
  "initial_target_context_ids s contexts context_names =
     (if truthy contexts then ids_of_named_contexts s (items contexts)
      else if truthy context_names then
        Inr (map c_id (filter (\<lambda>c. c_name c \<in> set (items context_names)) (get_contexts s)))
      else Inr (map c_id (get_contexts s)))"

text \<open>
  Lines 367 to 372: every condition in turn narrows \<^verbatim>\<open>target_context_ids\<close> to
  the ids that are among the ids of \<^verbatim>\<open>list_contexts_by_condition(cond)\<close>.
\<close>

fun apply_conditions :: "store \<Rightarrow> condition list \<Rightarrow> int list \<Rightarrow> error + int list" where
  "apply_conditions s [] target_context_ids = Inr target_context_ids"
| "apply_conditions s (cond # conditions) target_context_ids =
     (case list_contexts_by_condition s cond of
        Inl err \<Rightarrow> Inl err
      | Inr context_w_cond \<Rightarrow>
          apply_conditions s conditions
            (filter (\<lambda>c. c \<in> set (map c_id context_w_cond)) target_context_ids))"

text \<open>
  The value of \<^verbatim>\<open>target_context_ids\<close> when line 374 is reached: the contexts that
  survive the selectors and the conditions.
\<close>

definition surviving_context_ids ::
  "store \<Rightarrow> string list option \<Rightarrow> string list option \<Rightarrow> condition list option \<Rightarrow> error + int list" where
  "surviving_context_ids s contexts context_names conditions =
     (case initial_target_context_ids s contexts context_names of
        Inl err \<Rightarrow> Inl err
      | Inr target_context_ids \<Rightarrow>
          if truthy conditions then apply_conditions s (items conditions) target_context_ids
          else Inr target_context_ids)"

text \<open>Lines 374 to 377: the loop that fills \<^verbatim>\<open>result\<close>, keyed by context id.\<close>

fun outcomes_loop ::
  "store \<Rightarrow> int list \<Rightarrow> string list option \<Rightarrow> (int \<times> (string \<times> md_artifact list) list) list
     \<Rightarrow> error + (int \<times> (string \<times> md_artifact list) list) list" where
  "outcomes_loop s [] output_components result = Inr result"
| "outcomes_loop s (cid # target_context_ids) output_components result =
     (case get_outcomes_in_context s (Ident cid) output_components of
        Inl err \<Rightarrow> Inl err
      | Inr v \<Rightarrow> outcomes_loop s target_context_ids output_components (AList.update cid v result))"

definition get_outcomes ::
  "store \<Rightarrow> string list option \<Rightarrow> string list option \<Rightarrow> string list option
     \<Rightarrow> condition list option \<Rightarrow> error + (int \<times> (string \<times> string list) list) list" where
  "get_outcomes s contexts context_names output_components conditions =
     (if truthy contexts \<and> truthy context_names
      then Inl (PyException ''Cant define context id/names at the same time'')
      else
        (case surviving_context_ids s contexts context_names conditions of
           Inl err \<Rightarrow> Inl err
         | Inr target_context_ids \<Rightarrow>
             (case outcomes_loop s target_context_ids output_components [] of
                Inl err \<Rightarrow> Inl err
              | Inr result \<Rightarrow> Inr (dict_of (map (\<lambda>kv. (fst kv, extract_uris (snd kv))) result)))))"

subsection \<open>Graph shapes the properties speak about\<close>





text \<open>The id of the first context of an execution, when it has one.\<close>

definition first_context_id :: "store \<Rightarrow> md_execution \<Rightarrow> int option" where
  "first_context_id s e =
     (case get_contexts_by_execution s (e_id e) of [] \<Rightarrow> None | c # _ \<Rightarrow> Some (c_id c))"

definition satisfies :: "condition \<Rightarrow> md_execution \<Rightarrow> bool" where
  "satisfies cond e =
     (component_id e = component cond \<and>
      string_value (e_properties e) (property_name cond) = cond_value cond)"

text \<open>
  The ids of the contexts that are the first context of an execution, anywhere in the
  store, that satisfies the condition.
\<close>

definition first_context_ids :: "store \<Rightarrow> condition \<Rightarrow> int set" where
  "first_context_ids s cond =
     {i. \<exists>e. e \<in> set (get_executions s) \<and> satisfies cond e \<and> first_context_id s e = Some i}"

text \<open>
  The specification's reading of a condition: the ids of the contexts in which some
  execution satisfies it.
\<close>

definition contexts_satisfying :: "store \<Rightarrow> condition \<Rightarrow> int set" where
  "contexts_satisfying s cond =
     {i. \<exists>c e. c \<in> set (get_contexts s) \<and> c_id c = i \<and>
               e \<in> set (get_executions_by_context s i) \<and> satisfies cond e}"

subsection \<open>A backend over tables\<close>

text \<open>
  A metadata database as five tables: the contexts with their type names, the
  executions, the events, the artifacts, and the pairs (context id, execution id) of
  the executions that belong to a context. Every query filters its table and keeps
  the order of the rows. An id given where a name is expected matches no context.
\<close>

record tables =
  t_contexts :: "(string \<times> md_context) list"
  t_executions :: "md_execution list"
  t_events :: "md_event list"
  t_artifacts :: "md_artifact list"
  t_associations :: "(int \<times> int) list"

definition table_store :: "tables \<Rightarrow> store" where
  "table_store T =
     \<lparr> get_context_by_type_and_name =
         (\<lambda>type_name arg.
            case arg of
              Ident _ \<Rightarrow> None
            | Name n \<Rightarrow>
                map_option snd
                  (find (\<lambda>tc. fst tc = type_name \<and> c_name (snd tc) = n) (t_contexts T))),
       get_contexts = map snd (t_contexts T),
       get_executions = t_executions T,
       get_executions_by_context =
         (\<lambda>i. filter (\<lambda>e. (i, e_id e) \<in> set (t_associations T)) (t_executions T)),
       get_executions_by_id = (\<lambda>ids. filter (\<lambda>e. e_id e \<in> set ids) (t_executions T)),
       get_events_by_execution_ids =
         (\<lambda>ids. filter (\<lambda>ev. ev_execution_id ev \<in> set ids) (t_events T)),
       get_events_by_artifact_ids =
         (\<lambda>ids. filter (\<lambda>ev. ev_artifact_id ev \<in> set ids) (t_events T)),
       get_artifacts_by_id = (\<lambda>ids. filter (\<lambda>a. a_id a \<in> set ids) (t_artifacts T)),
       get_contexts_by_execution =
         (\<lambda>i. filter (\<lambda>c. (c_id c, i) \<in> set (t_associations T)) (map snd (t_contexts T))) \<rparr>"

definition mk_execution :: "int \<Rightarrow> string \<Rightarrow> string \<Rightarrow> md_execution" where
  "mk_execution i cid st =
     \<lparr> e_id = i, e_properties = [(''component_id'', cid), (''state'', st)] \<rparr>"

definition output_event :: "int \<Rightarrow> int \<Rightarrow> md_event" where
  "output_event artifact execution =
     \<lparr> ev_artifact_id = artifact, ev_execution_id = execution, ev_type = 4 \<rparr>"

subsection \<open>Concrete stores\<close>

text \<open>
  Two pipelines: \<open>solo\<close> holds one execution, in state complete; \<open>dup\<close> holds three
  executions, the first and the third of the same component.
\<close>

definition status_tables :: tables where
  "status_tables =
     \<lparr> t_contexts = [(''pipeline'', \<lparr> c_id = 1, c_name = ''solo'' \<rparr>),
                     (''pipeline'', \<lparr> c_id = 2, c_name = ''dup'' \<rparr>)],
       t_executions = [mk_execution 1 ''pkg.trainer'' ''complete'',
                       mk_execution 2 ''pkg.loader'' ''running'',
                       mk_execution 3 ''pkg.trainer'' ''complete'',
                       mk_execution 4 ''pkg.loader'' ''complete''],
       t_events = [],
       t_artifacts = [],
       t_associations = [(1, 1), (2, 2), (2, 3), (2, 4)] \<rparr>"

text \<open>
  A store that knows \<open>p\<close> as a run context only: the context of type run named
  \<open>p\<close> holds two executions, and no context of type pipeline exists.
\<close>

definition run_only_tables :: tables where
  "run_only_tables =
     \<lparr> t_contexts = [(''run'', \<lparr> c_id = 1, c_name = ''p'' \<rparr>)],
       t_executions = [mk_execution 1 ''pkg.loader'' ''complete'',
                       mk_execution 2 ''pkg.trainer'' ''complete''],
       t_events = [],
       t_artifacts = [],
       t_associations = [(1, 1), (1, 2)] \<rparr>"



text \<open>
  The scenario of the specification, as rows: run-42 holds execution 1 (pkg.loader,
  complete) and execution 2 (pkg.trainer, cached); run-41 holds execution 0
  (pkg.trainer, complete). Execution 0 has output events on artifacts 1 and 2, and the
  output event of the cached execution 2 references artifact 2.
\<close>

definition scenario_tables :: tables where
  "scenario_tables =
     \<lparr> t_contexts = [(''run'', \<lparr> c_id = 41, c_name = ''run-41'' \<rparr>),
                     (''run'', \<lparr> c_id = 42, c_name = ''run-42'' \<rparr>)],
       t_executions = [mk_execution 0 ''pkg.trainer'' ''complete'',
                       mk_execution 1 ''pkg.loader'' ''complete'',
                       mk_execution 2 ''pkg.trainer'' ''cached''],
       t_events = [output_event 1 0, output_event 2 0, output_event 3 1, output_event 2 2],
       t_artifacts = [\<lparr> a_id = 1, a_uri = ''uri-a1'' \<rparr>, \<lparr> a_id = 2, a_uri = ''uri-a2'' \<rparr>,
                      \<lparr> a_id = 3, a_uri = ''uri-a3'' \<rparr>],
       t_associations = [(41, 0), (42, 1), (42, 2)] \<rparr>"

text \<open>
  One pipeline with two runs of the same component: execution 1 (complete) belongs to
  the pipeline context 1 and to run-1 (context 2), execution 2 (cached) to the
  pipeline context 1 and to run-2 (context 3). The pipeline context comes first for
  both executions.
\<close>

definition two_runs_tables :: tables where
  "two_runs_tables =
     \<lparr> t_contexts = [(''pipeline'', \<lparr> c_id = 1, c_name = ''pipe'' \<rparr>),
                     (''run'', \<lparr> c_id = 2, c_name = ''run-1'' \<rparr>),
                     (''run'', \<lparr> c_id = 3, c_name = ''run-2'' \<rparr>)],
       t_executions = [mk_execution 1 ''pkg.c1'' ''complete'',
                       mk_execution 2 ''pkg.c1'' ''cached''],
       t_events = [output_event 10 1, output_event 10 2],
       t_artifacts = [\<lparr> a_id = 10, a_uri = ''uri-10'' \<rparr>],
       t_associations = [(1, 1), (2, 1), (1, 2), (3, 2)] \<rparr>"

definition state_is :: "string \<Rightarrow> string \<Rightarrow> condition" where
  "state_is cname v = \<lparr> component = cname, property_name = ''state'', cond_value = v \<rparr>"

text \<open>
  A cached execution with two output events and an input event between them: its
  outputs are artifacts 10 and 12, in this order, and artifact 12 was first produced
  by execution 9 of run-1.
\<close>

definition multi_output_tables :: tables where
  "multi_output_tables =
     \<lparr> t_contexts = [(''run'', \<lparr> c_id = 1, c_name = ''run-1'' \<rparr>),
                     (''run'', \<lparr> c_id = 2, c_name = ''run-2'' \<rparr>)],
       t_executions = [mk_execution 9 ''pkg.trainer'' ''complete'',
                       mk_execution 1 ''pkg.trainer'' ''cached''],
       t_events = [output_event 12 9,
                   output_event 10 1,
                   \<lparr> ev_artifact_id = 11, ev_execution_id = 1, ev_type = 3 \<rparr>,
                   output_event 12 1],
       t_artifacts = [\<lparr> a_id = 10, a_uri = ''uri-10'' \<rparr>, \<lparr> a_id = 11, a_uri = ''uri-11'' \<rparr>,
                      \<lparr> a_id = 12, a_uri = ''uri-12'' \<rparr>],
       t_associations = [(1, 9), (2, 1)] \<rparr>"

section \<open>Properties\<close>

text \<open>
  The specification names failures by kind (NotFound, InvalidArgument, TraceError); the
  source raises Python's built-in exceptions. A statement that a call fails is proved
  with the exception the source raises there.
\<close>

subsection \<open>Dictionaries\<close>

lemma foldl_update_keys:
  "fst ` set (foldl (\<lambda>d kv. AList.update (fst kv) (snd kv) d) d kvs) = fst ` set d \<union> fst ` set kvs"
  by (induction kvs arbitrary: d) (auto simp: AList.dom_update)

lemma foldl_update_distinct:
  "distinct (map fst d) \<Longrightarrow>
   distinct (map fst (foldl (\<lambda>d kv. AList.update (fst kv) (snd kv) d) d kvs))"
  by (induction kvs arbitrary: d) (auto simp: AList.distinct_update)

lemma foldl_update_map_of:
  "map_of (foldl (\<lambda>d kv. AList.update (fst kv) (snd kv) d) d kvs) = map_of d ++ map_of (rev kvs)"
proof (induction kvs arbitrary: d)
  case Nil
  then show ?case by simp
next
  case (Cons kv kvs)
  have "map_of (AList.update (fst kv) (snd kv) d) ++ map_of (rev kvs)
        = map_of d ++ (map_of (rev kvs @ [kv]))"
    by (cases kv) (auto simp: AList.update_conv' map_add_def fun_eq_iff split: option.splits)
  with Cons show ?case by simp
qed

lemma dict_of_keys: "fst ` set (dict_of kvs) = fst ` set kvs"
  by (simp add: dict_of_def foldl_update_keys)

lemma dict_of_distinct: "distinct (map fst (dict_of kvs))"
  by (simp add: dict_of_def foldl_update_distinct)

lemma dict_of_map_of: "map_of (dict_of kvs) = map_of (rev kvs)"
  by (simp add: dict_of_def foldl_update_map_of)

lemma dict_of_length: "length (dict_of kvs) = card (fst ` set kvs)"
proof -
  have "length (dict_of kvs) = length (map fst (dict_of kvs))" by simp
  also have "\<dots> = card (set (map fst (dict_of kvs)))"
    using dict_of_distinct [of kvs] by (simp only: distinct_card)
  also have "\<dots> = card (fst ` set kvs)" by (simp add: dict_of_keys)
  finally show ?thesis .
qed

text \<open>Looking a key up in the reversed pairs finds the last pair stored under it.\<close>

lemma map_of_rev_last:
  "x \<in> set xs \<Longrightarrow>
   map_of (rev (map (\<lambda>e. (f e, g e)) xs)) (f x) = Some (g (last (filter (\<lambda>y. f y = f x) xs)))"
proof (induction xs rule: rev_induct)
  case Nil
  then show ?case by simp
next
  case (snoc y ys)
  show ?case
  proof (cases "f y = f x")
    case True
    then show ?thesis by simp
  next
    case False
    with snoc.prems have "x \<in> set ys" by auto
    with snoc.IH False show ?thesis by simp
  qed
qed

subsection \<open>Component status\<close>

text \<open>
  C9, as amended: when the context of type \<^verbatim>\<open>pipeline\<close> named P exists and
  holds N executions, \<^verbatim>\<open>get_components_status(P)\<close> returns (it does not raise)
  a dict with one entry per distinct component id: exactly N entries when the
  component ids are distinct, and under each component id the state of the last
  execution, in the order the backend lists them, that carries this id.
\<close>

theorem get_components_status_entries:
  assumes "get_pipeline_context s pipeline_name = Some c"
  shows "\<exists>d. get_components_status s pipeline_name = Inr d
           \<and> distinct (map fst d)
           \<and> length d = card (component_id ` set (get_executions_by_context s (c_id c)))
           \<and> (distinct (map component_id (get_executions_by_context s (c_id c)))
                \<longrightarrow> length d = length (get_executions_by_context s (c_id c)))
           \<and> (\<forall>e \<in> set (get_executions_by_context s (c_id c)).
                 map_of d (component_id e)
                 = Some (state (last (filter (\<lambda>x. component_id x = component_id e)
                                        (get_executions_by_context s (c_id c))))))"
proof -
  let ?execs = "get_executions_by_context s (c_id c)"
  let ?kvs = "map (\<lambda>e. (component_id e, state e)) ?execs"
  have res: "get_components_status s pipeline_name = Inr (dict_of ?kvs)"
    using assms by (simp add: get_components_status_def get_pipeline_executions_def)
  have keys: "fst ` set ?kvs = component_id ` set ?execs"
    by (simp add: image_image)
  have len: "length (dict_of ?kvs) = card (component_id ` set ?execs)"
    by (simp only: dict_of_length keys)
  have dis: "distinct (map component_id ?execs) \<longrightarrow> length (dict_of ?kvs) = length ?execs"
  proof
    assume d: "distinct (map component_id ?execs)"
    have "card (component_id ` set ?execs) = card (set (map component_id ?execs))" by simp
    also have "\<dots> = length (map component_id ?execs)" using d by (rule distinct_card)
    finally show "length (dict_of ?kvs) = length ?execs" using len by simp
  qed
  have lastw: "\<forall>e \<in> set ?execs. map_of (dict_of ?kvs) (component_id e)
       = Some (state (last (filter (\<lambda>x. component_id x = component_id e) ?execs)))"
    by (simp add: dict_of_map_of map_of_rev_last)
  show ?thesis
    using res dict_of_distinct [of ?kvs] len dis lastw by blast
qed

text \<open>
  Pipeline \<open>dup\<close> holds three executions, two of them of pkg.loader (running, then
  complete): the dict has two entries, and pkg.loader maps to the later state.
\<close>

theorem get_components_status_entries_witness:
  "get_pipeline_context (table_store status_tables) ''dup'' = Some \<lparr> c_id = 2, c_name = ''dup'' \<rparr>
   \<and> get_components_status (table_store status_tables) ''dup''
       = Inr [(''pkg.loader'', ''complete''), (''pkg.trainer'', ''complete'')]
   \<and> card (component_id ` set (get_executions_by_context (table_store status_tables) 2)) = 2"
proof -
  have c: "get_pipeline_context (table_store status_tables) ''dup''
             = Some \<lparr> c_id = 2, c_name = ''dup'' \<rparr>"
    by (simp add: get_pipeline_context_def table_store_def status_tables_def)
  have r: "get_components_status (table_store status_tables) ''dup''
       = Inr [(''pkg.loader'', ''complete''), (''pkg.trainer'', ''complete'')]"
    by (simp add: get_components_status_def get_pipeline_executions_def
      get_pipeline_context_def table_store_def status_tables_def mk_execution_def dict_of_def
      component_id_def state_def string_value_def)
  from get_components_status_entries [OF c] obtain d where
    d: "get_components_status (table_store status_tables) ''dup'' = Inr d"
       "length d = card (component_id ` set (get_executions_by_context (table_store status_tables)
                    (c_id \<lparr> c_id = 2, c_name = ''dup'' \<rparr>)))"
    by blast
  from d(1) r have "d = [(''pkg.loader'', ''complete''), (''pkg.trainer'', ''complete'')]"
    by simp
  with d(2) have "card (component_id ` set (get_executions_by_context (table_store status_tables) 2)) = 2"
    by simp
  with c r show ?thesis by simp
qed

text \<open>
  The claim as stated, about the run context of P, fails: the source resolves the
  context of type \<^verbatim>\<open>pipeline\<close>. Where \<open>p\<close> names a run context with two
  executions and no pipeline context, the call raises instead of returning two
  entries.
\<close>

theorem run_context_not_resolved:
  "get_context_by_type_and_name (table_store run_only_tables) ''run'' (Name ''p'')
     = Some \<lparr> c_id = 1, c_name = ''p'' \<rparr>
   \<and> length (get_executions_by_context (table_store run_only_tables) 1) = 2
   \<and> get_components_status (table_store run_only_tables) ''p'' = Inl AttributeError"
  by (simp add: get_components_status_def get_pipeline_executions_def get_pipeline_context_def
      table_store_def run_only_tables_def mk_execution_def)

text \<open>Any key at all makes the status loop answer Running.\<close>

lemma status_loop_Running: "keys \<noteq> [] \<Longrightarrow> status_loop keys = ''Running''"
  by (cases keys) auto

text \<open>
  C2: the claim is that \<^verbatim>\<open>get_pipeline_status\<close> returns Succeeded exactly when
  every entry of \<^verbatim>\<open>get_components_status\<close> is complete or cached. The source
  iterates the keys of the dict and tests \<^verbatim>\<open>status != 'complete' or status !=
  'cached'\<close>, which holds of every string, so any entry makes it return Running: for
  pipeline \<open>solo\<close>, whose only component is complete, the status is Running.
\<close>

theorem get_pipeline_status_solo:
  "get_components_status (table_store status_tables) ''solo'' = Inr [(''pkg.trainer'', ''complete'')]
   \<and> get_pipeline_status (table_store status_tables) ''solo'' = Inr ''Running''"
  by (simp add: get_pipeline_status_def get_components_status_def get_pipeline_executions_def
      get_pipeline_context_def table_store_def status_tables_def mk_execution_def dict_of_def
      component_id_def state_def string_value_def)

subsection \<open>Cache-chain tracer\<close>

text \<open>The loop collects the artifact ids of the output events in the order of the events.\<close>

lemma collect_output_ids_eq:
  "collect_output_ids events acc = acc @ map ev_artifact_id (filter (\<lambda>e. ev_type e = 4) events)"
  by (induction events arbitrary: acc) auto

text \<open>
  The module binds no name \<^verbatim>\<open>ExecutionStates\<close>, so the test of line 447 raises
  NameError: every call of the tracer that has stack depth left raises it, after the
  events were fetched and before either branch is entered. No recursive call is made.
\<close>

lemma ExecutionStates_unbound: "ExecutionStates_cached_name = Inl NameError"
  by (simp add: ExecutionStates_cached_name_def module_globals_def)

lemma tracer_raises_NameError:
  "find_original_context_and_artifacts_from_exec (Suc n) s execution = Inl NameError"
  by (simp add: ExecutionStates_unbound Let_def)

text \<open>Unfolding rules for the concrete stores.\<close>

lemmas store_eval = table_store_def mk_execution_def output_event_def state_def component_id_def
  string_value_def Let_def





text \<open>
  C3: the claim is that a chain of K cached executions that ends at a non-cached
  execution resolves, within K + 1 hops, to the first context and the output
  artifacts of the non-cached execution, as in the run-41/run-42 scenario. On the
  rows of the scenario the trace by component finds the cached trainer of run-42 and
  raises NameError, and so does the trace from the non-cached execution 0 itself, a
  chain with K = 0: the test of line 447 reads the unbound \<^verbatim>\<open>ExecutionStates\<close>.
\<close>

theorem scenario_trace_raises:
  "get_execution_by_component_type (table_store scenario_tables) ''run-42'' ''trainer''
     = Inr (Some (mk_execution 2 ''pkg.trainer'' ''cached''))
   \<and> find_original_context_and_artifacts_from_context 1000 (table_store scenario_tables)
        ''run-42'' ''trainer'' = Inl NameError
   \<and> state (mk_execution 0 ''pkg.trainer'' ''complete'') = ''complete''
   \<and> find_original_context_and_artifacts_from_exec 1000 (table_store scenario_tables)
        (mk_execution 0 ''pkg.trainer'' ''complete'') = Inl NameError"
proof -
  have g: "get_execution_by_component_type (table_store scenario_tables) ''run-42'' ''trainer''
     = Inr (Some (mk_execution 2 ''pkg.trainer'' ''cached''))"
    by (simp add: get_execution_by_component_type_def instance_name_def scenario_tables_def
        store_eval)
  have k: "(1000::nat) = Suc 999" by simp
  have t: "\<And>e. find_original_context_and_artifacts_from_exec 1000 (table_store scenario_tables) e
             = Inl NameError"
    unfolding k by (rule tracer_raises_NameError)
  have st: "state (mk_execution 0 ''pkg.trainer'' ''complete'') = ''complete''"
    by (simp add: store_eval)
  from g t st show ?thesis
    by (simp add: find_original_context_and_artifacts_from_context_def)
qed

text \<open>
  C8: the claim is that the artifact ids of the output events are collected in the
  order of the events and that the last one is followed when the execution is cached.
  For the cached execution 1, with output events on artifacts 10 and 12, the ids are
  collected in this order, but the trace raises NameError at the test of line 447,
  before the cached branch: no artifact is followed.
\<close>

theorem multi_output_trace_raises:
  "collect_output_ids (get_events_by_execution_ids (table_store multi_output_tables) [1]) []
     = [10, 12]
   \<and> state (mk_execution 1 ''pkg.trainer'' ''cached'') = ''cached''
   \<and> find_original_context_and_artifacts_from_exec 1000 (table_store multi_output_tables)
        (mk_execution 1 ''pkg.trainer'' ''cached'') = Inl NameError"
proof -
  have ids: "collect_output_ids (get_events_by_execution_ids (table_store multi_output_tables) [1]) []
     = [10, 12]"
    by (simp add: multi_output_tables_def store_eval)
  have st: "state (mk_execution 1 ''pkg.trainer'' ''cached'') = ''cached''"
    by (simp add: store_eval)
  have k: "(1000::nat) = Suc 999" by simp
  have t: "find_original_context_and_artifacts_from_exec 1000 (table_store multi_output_tables)
        (mk_execution 1 ''pkg.trainer'' ''cached'') = Inl NameError"
    unfolding k by (rule tracer_raises_NameError)
  from ids st t show ?thesis by simp
qed

subsection \<open>Lookup by component type\<close>



text \<open>A run context that does not exist makes the lookup raise, on \<^verbatim>\<open>.id\<close>.\<close>

lemma missing_context_raises:
  "get_context_by_type_and_name s ''run'' (Name ctx) = None \<Longrightarrow>
   find_original_context_and_artifacts_from_context n s ctx wanted = Inl AttributeError"
  by (simp add: find_original_context_and_artifacts_from_context_def
      get_execution_by_component_type_def)



subsection \<open>Outcome queries\<close>

text \<open>
  C6: when both \<^verbatim>\<open>contexts\<close> and \<^verbatim>\<open>context_names\<close> are non-empty,
  \<^verbatim>\<open>get_outcomes\<close> raises the exception of its first statement. The backend is
  arbitrary in the statement: the outcome does not depend on the answer to any query,
  the test being made before the first one is issued.
\<close>

theorem get_outcomes_both_selectors:
  assumes "truthy contexts" and "truthy context_names"
  shows "get_outcomes s contexts context_names output_components conditions
         = Inl (PyException ''Cant define context id/names at the same time'')"
  using assms by (simp add: get_outcomes_def)

theorem get_outcomes_both_selectors_witness:
  "truthy (Some [''run-42'']) \<and> truthy (Some [''run-41''])
   \<and> get_outcomes (table_store scenario_tables) (Some [''run-42'']) (Some [''run-41'']) None None
       = Inl (PyException ''Cant define context id/names at the same time'')"
proof -
  have a: "truthy (Some [''run-42''])" and b: "truthy (Some [''run-41''])"
    by (simp_all add: truthy_def)
  from a b get_outcomes_both_selectors [OF a b, of "table_store scenario_tables" None None]
  show ?thesis by simp
qed

text \<open>
  The contexts of a condition, as the source computes them: the first context of every
  execution of the store that satisfies the condition.
\<close>

lemma registered_iff:
  "component_name \<in> set (list_registered_components s)
   \<longleftrightarrow> (\<exists>e \<in> set (get_executions s). component_id e = component_name)"
  by (auto simp: list_registered_components_def)

lemma filter_executions_by_condition_Inr:
  "filter_executions_by_condition s cond = Inr executions \<Longrightarrow>
   executions = filter (satisfies cond) (get_executions s)"
  by (auto simp: filter_executions_by_condition_def filter_executions_by_component_def
      satisfies_def split: if_splits intro: filter_cong)

lemma map_execution_to_context_ids:
  "map_execution_to_context s executions = Inr cs \<Longrightarrow>
   map (\<lambda>c. Some (c_id c)) cs = map (first_context_id s) executions"
  by (induction executions arbitrary: cs)
     (auto simp: first_context_id_def split: list.splits sum.splits)

lemma list_contexts_by_condition_ids:
  assumes "list_contexts_by_condition s cond = Inr cs"
  shows "set (map c_id cs) = first_context_ids s cond"
proof -
  from assms obtain executions where
    f: "filter_executions_by_condition s cond = Inr executions" and
    m: "map_execution_to_context s executions = Inr cs"
    by (auto simp: list_contexts_by_condition_def split: sum.splits)
  from filter_executions_by_condition_Inr [OF f]
  have ex: "executions = filter (satisfies cond) (get_executions s)" .
  from map_execution_to_context_ids [OF m]
  have "Some ` c_id ` set cs = first_context_id s ` set executions"
    by (metis image_image list.set_map)
  then have "\<And>i. i \<in> c_id ` set cs \<longleftrightarrow> Some i \<in> first_context_id s ` set executions"
    by (metis (no_types, lifting) image_iff option.inject)
  then show ?thesis
    unfolding first_context_ids_def ex by (auto simp: image_iff) metis+
qed

lemma apply_conditions_filter:
  "apply_conditions s conds ids = Inr ids' \<Longrightarrow>
   ids' = filter (\<lambda>c. \<forall>cond \<in> set conds. c \<in> first_context_ids s cond) ids"
proof (induction conds arbitrary: ids)
  case Nil
  then show ?case by simp
next
  case (Cons cond conds)
  from Cons.prems obtain cs where
    l: "list_contexts_by_condition s cond = Inr cs" and
    r: "apply_conditions s conds (filter (\<lambda>c. c \<in> set (map c_id cs)) ids) = Inr ids'"
    by (auto split: sum.splits)
  from Cons.IH [OF r] list_contexts_by_condition_ids [OF l]
  show ?case by (auto intro: filter_cong)
qed

text \<open>Unfolding rules for the outcome queries on concrete stores.\<close>

lemmas outcome_eval = surviving_context_ids_def initial_target_context_ids_def truthy_def items_def
  list_contexts_by_condition_def filter_executions_by_condition_def
  filter_executions_by_component_def list_registered_components_def state_is_def

text \<open>
  C7, as amended: when the selectors and the conditions are processed without a
  failure, the surviving context ids are the initial target ids, in their order,
  that for every condition are the id of the first context
  (\<^verbatim>\<open>get_contexts_by_execution(e.id)[0]\<close>) of some execution \<open>e\<close> of the store
  that belongs to the named component and has the named property equal to the value.
  Two conditions on the same component and property with different values leave no
  context when no two executions of that component have the same first context.
\<close>

theorem surviving_contexts_first_context:
  assumes "initial_target_context_ids s contexts context_names = Inr ids"
      and "surviving_context_ids s contexts context_names conditions = Inr ids'"
  shows "ids' = filter (\<lambda>c. \<forall>cond \<in> set (items conditions). c \<in> first_context_ids s cond) ids
       \<and> (\<forall>c1 c2. c1 \<in> set (items conditions) \<and> c2 \<in> set (items conditions)
             \<and> component c1 = component c2 \<and> property_name c1 = property_name c2
             \<and> cond_value c1 \<noteq> cond_value c2
             \<and> inj_on (first_context_id s)
                  {e \<in> set (get_executions s). component_id e = component c1}
           \<longrightarrow> ids' = [])"
proof -
  have flt: "ids' = filter (\<lambda>c. \<forall>cond \<in> set (items conditions). c \<in> first_context_ids s cond) ids"
  proof (cases "truthy conditions")
    case True
    with assms have "apply_conditions s (items conditions) ids = Inr ids'"
      by (simp add: surviving_context_ids_def)
    then show ?thesis by (rule apply_conditions_filter)
  next
    case False
    then have "items conditions = []"
      by (auto simp: truthy_def items_def split: option.splits)
    with False assms show ?thesis by (simp add: surviving_context_ids_def)
  qed
  have "ids' = []"
    if h: "c1 \<in> set (items conditions)" "c2 \<in> set (items conditions)"
          "component c1 = component c2" "property_name c1 = property_name c2"
          "cond_value c1 \<noteq> cond_value c2"
          "inj_on (first_context_id s) {e \<in> set (get_executions s). component_id e = component c1}"
    for c1 c2
  proof (rule ccontr)
    assume "ids' \<noteq> []"
    then obtain i where "i \<in> set ids'" by (cases ids') auto
    with flt h(1,2) have "i \<in> first_context_ids s c1" "i \<in> first_context_ids s c2" by auto
    then obtain e1 e2 where
      e1: "e1 \<in> set (get_executions s)" "satisfies c1 e1" "first_context_id s e1 = Some i" and
      e2: "e2 \<in> set (get_executions s)" "satisfies c2 e2" "first_context_id s e2 = Some i"
      by (auto simp: first_context_ids_def)
    from e1 e2 h(3) have
      "e1 \<in> {e \<in> set (get_executions s). component_id e = component c1}"
      "e2 \<in> {e \<in> set (get_executions s). component_id e = component c1}"
      by (auto simp: satisfies_def)
    moreover have "first_context_id s e1 = first_context_id s e2"
      using e1(3) e2(3) by simp
    ultimately have "e1 = e2" using h(6) by (blast dest: inj_onD)
    with e1(2) e2(2) h(4,5) show False by (simp add: satisfies_def)
  qed
  with flt show ?thesis by blast
qed

text \<open>
  With one condition on two runs of a pipeline only the pipeline context survives;
  in the scenario the two trainers have different first contexts, and two conflicting
  conditions leave no context.
\<close>

theorem surviving_contexts_first_context_witness:
  "initial_target_context_ids (table_store two_runs_tables) None None = Inr [1, 2, 3]
   \<and> surviving_context_ids (table_store two_runs_tables) None None
        (Some [state_is ''pkg.c1'' ''complete'']) = Inr [1]
   \<and> [1] = filter (\<lambda>c. c \<in> first_context_ids (table_store two_runs_tables)
                              (state_is ''pkg.c1'' ''complete'')) [1, 2, 3]
   \<and> surviving_context_ids (table_store scenario_tables) None None
        (Some [state_is ''pkg.trainer'' ''complete'', state_is ''pkg.trainer'' ''cached'']) = Inr []"
proof -
  let ?s = "table_store two_runs_tables"
  let ?A = "state_is ''pkg.c1'' ''complete''"
  have i: "initial_target_context_ids ?s None None = Inr [1, 2, 3]"
    by (simp add: outcome_eval two_runs_tables_def table_store_def)
  have v: "surviving_context_ids ?s None None (Some [?A]) = Inr [1]"
    by (simp add: outcome_eval two_runs_tables_def store_eval)
  from surviving_contexts_first_context [OF i v]
  have f: "[1] = filter (\<lambda>c. c \<in> first_context_ids ?s ?A) [1, 2, 3]"
    by (simp add: items_def)
  let ?t = "table_store scenario_tables"
  let ?T1 = "state_is ''pkg.trainer'' ''complete''"
  let ?T2 = "state_is ''pkg.trainer'' ''cached''"
  let ?e0 = "mk_execution 0 ''pkg.trainer'' ''complete''"
  let ?e1 = "mk_execution 1 ''pkg.loader'' ''complete''"
  let ?e2 = "mk_execution 2 ''pkg.trainer'' ''cached''"
  have i2: "initial_target_context_ids ?t None None = Inr [41, 42]"
    by (simp add: outcome_eval scenario_tables_def table_store_def)
  have v2: "surviving_context_ids ?t None None (Some [?T1, ?T2]) = Inr []"
    by (simp add: outcome_eval scenario_tables_def store_eval)
  have ex: "get_executions ?t = [?e0, ?e1, ?e2]"
    by (simp add: scenario_tables_def table_store_def)
  have c0: "component_id ?e0 = ''pkg.trainer''" and c1: "component_id ?e1 = ''pkg.loader''"
   and c2: "component_id ?e2 = ''pkg.trainer''" and ct: "component ?T1 = ''pkg.trainer''"
    by (simp_all add: mk_execution_def component_id_def string_value_def state_is_def)
  have "{e \<in> set [?e0, ?e1, ?e2]. component_id e = component ?T1}
          = set (filter (\<lambda>e. component_id e = component ?T1) [?e0, ?e1, ?e2])"
    by (simp only: set_filter)
  also have "\<dots> = {?e0, ?e2}"
    by (simp add: c0 c1 c2 ct)
  finally have tr: "{e \<in> set [?e0, ?e1, ?e2]. component_id e = component ?T1} = {?e0, ?e2}" .
  have f0: "first_context_id ?t ?e0 = Some 41" and f2: "first_context_id ?t ?e2 = Some 42"
    by (simp_all add: first_context_id_def scenario_tables_def table_store_def mk_execution_def)
  have inj: "inj_on (first_context_id ?t)
        {e \<in> set (get_executions ?t). component_id e = component ?T1}"
    unfolding ex tr inj_on_def using f0 f2 by auto
  have "?T1 \<in> set (items (Some [?T1, ?T2])) \<and> ?T2 \<in> set (items (Some [?T1, ?T2]))
        \<and> component ?T1 = component ?T2 \<and> property_name ?T1 = property_name ?T2
        \<and> cond_value ?T1 \<noteq> cond_value ?T2"
    by (simp add: items_def state_is_def)
  with surviving_contexts_first_context [OF i2 v2] inj
  have "([]::int list) = []" by blast
  with i v f v2 show ?thesis by simp
qed

text \<open>
  The claim as stated fails. Context 2 (run-1) holds an execution of pkg.c1 in state
  complete, yet it does not survive the condition: the execution's first context is
  the pipeline context 1. And the two conflicting conditions on the state of pkg.c1
  leave context 1, which is the first context of a complete and of a cached execution.
\<close>

theorem first_context_only_counterexample:
  "surviving_context_ids (table_store two_runs_tables) None None None = Inr [1, 2, 3]
   \<and> 2 \<in> contexts_satisfying (table_store two_runs_tables) (state_is ''pkg.c1'' ''complete'')
   \<and> surviving_context_ids (table_store two_runs_tables) None None
        (Some [state_is ''pkg.c1'' ''complete'']) = Inr [1]
   \<and> surviving_context_ids (table_store two_runs_tables) None None
        (Some [state_is ''pkg.c1'' ''complete'', state_is ''pkg.c1'' ''cached'']) = Inr [1]"
proof -
  let ?s = "table_store two_runs_tables"
  have a: "surviving_context_ids ?s None None None = Inr [1, 2, 3]"
    by (simp add: outcome_eval two_runs_tables_def table_store_def)
  have "\<lparr> c_id = 2, c_name = ''run-1'' \<rparr> \<in> set (get_contexts ?s)"
    by (simp add: two_runs_tables_def table_store_def)
  moreover have "mk_execution 1 ''pkg.c1'' ''complete'' \<in> set (get_executions_by_context ?s 2)"
    by (simp add: two_runs_tables_def store_eval)
  moreover have "satisfies (state_is ''pkg.c1'' ''complete'') (mk_execution 1 ''pkg.c1'' ''complete'')"
    by (simp add: satisfies_def state_is_def store_eval)
  ultimately have b: "2 \<in> contexts_satisfying ?s (state_is ''pkg.c1'' ''complete'')"
    unfolding contexts_satisfying_def by force
  have c: "surviving_context_ids ?s None None (Some [state_is ''pkg.c1'' ''complete'']) = Inr [1]"
    by (simp add: outcome_eval two_runs_tables_def store_eval)
  have d: "surviving_context_ids ?s None None
        (Some [state_is ''pkg.c1'' ''complete'', state_is ''pkg.c1'' ''cached'']) = Inr [1]"
    by (simp add: outcome_eval two_runs_tables_def store_eval)
  from a b c d show ?thesis by simp
qed

text \<open>
  A condition on a component that no execution of the store carries fails the
  assertion of \<^verbatim>\<open>filter_executions_by_component\<close>; the loop over the conditions
  stops at the first failure.
\<close>

lemma list_contexts_unregistered:
  "component cond \<notin> set (list_registered_components s) \<Longrightarrow>
   list_contexts_by_condition s cond = Inl AssertionError"
  by (simp add: list_contexts_by_condition_def filter_executions_by_condition_def
      filter_executions_by_component_def)

lemma apply_conditions_fails:
  "component cond \<notin> set (list_registered_components s) \<Longrightarrow>
   \<exists>err. apply_conditions s (pre @ cond # post) ids = Inl err"
  by (induction pre arbitrary: ids) (auto simp: list_contexts_unregistered split: sum.splits)

lemma apply_conditions_asserts:
  "\<forall>c \<in> set pre. \<exists>cs. list_contexts_by_condition s c = Inr cs \<Longrightarrow>
   component cond \<notin> set (list_registered_components s) \<Longrightarrow>
   apply_conditions s (pre @ cond # post) ids = Inl AssertionError"
  by (induction pre arbitrary: ids) (auto simp: list_contexts_unregistered)

text \<open>
  C10, as amended: a call of \<^verbatim>\<open>get_outcomes\<close> whose conditions name a component
  without any execution in the store never returns a result mapping, it fails. The
  failure is the AssertionError when the two selectors are not both given, the initial
  target contexts resolve and every earlier condition is processed without a failure;
  otherwise an earlier failure is raised.
\<close>

theorem unregistered_component_fails:
  assumes "items conditions = pre @ cond # post"
      and "component cond \<notin> set (list_registered_components s)"
  shows "(\<exists>err. get_outcomes s contexts context_names output_components conditions = Inl err)
       \<and> (\<not> (truthy contexts \<and> truthy context_names)
          \<and> (\<exists>ids. initial_target_context_ids s contexts context_names = Inr ids)
          \<and> (\<forall>c \<in> set pre. \<exists>cs. list_contexts_by_condition s c = Inr cs)
          \<longrightarrow> get_outcomes s contexts context_names output_components conditions
                = Inl AssertionError)"
proof -
  from assms(1) have t: "truthy conditions"
    by (auto simp: truthy_def items_def split: option.splits)
  have surv: "\<exists>err. surviving_context_ids s contexts context_names conditions = Inl err"
  proof (cases "initial_target_context_ids s contexts context_names")
    case (Inl err)
    then show ?thesis by (simp add: surviving_context_ids_def)
  next
    case (Inr ids)
    with t assms(1) apply_conditions_fails [OF assms(2), of pre post ids]
    show ?thesis by (simp add: surviving_context_ids_def)
  qed
  then have fails: "\<exists>err. get_outcomes s contexts context_names output_components conditions = Inl err"
    by (auto simp: get_outcomes_def)
  have "get_outcomes s contexts context_names output_components conditions = Inl AssertionError"
    if h: "\<not> (truthy contexts \<and> truthy context_names)"
          "initial_target_context_ids s contexts context_names = Inr ids"
          "\<forall>c \<in> set pre. \<exists>cs. list_contexts_by_condition s c = Inr cs"
    for ids
  proof -
    from apply_conditions_asserts [OF h(3) assms(2), of post ids] t assms(1) h(2)
    have "surviving_context_ids s contexts context_names conditions = Inl AssertionError"
      by (simp add: surviving_context_ids_def)
    with h(1) show ?thesis by (simp add: get_outcomes_def)
  qed
  with fails show ?thesis by blast
qed

text \<open>
  A registered component first, then the unregistered pkg.ghost: the call fails on
  the assertion.
\<close>

theorem unregistered_component_fails_witness:
  "items (Some [state_is ''pkg.c1'' ''complete'', state_is ''pkg.ghost'' ''complete''])
     = [state_is ''pkg.c1'' ''complete''] @ state_is ''pkg.ghost'' ''complete'' # []
   \<and> component (state_is ''pkg.ghost'' ''complete'')
       \<notin> set (list_registered_components (table_store two_runs_tables))
   \<and> get_outcomes (table_store two_runs_tables) None None None
        (Some [state_is ''pkg.c1'' ''complete'', state_is ''pkg.ghost'' ''complete''])
       = Inl AssertionError"
proof -
  let ?s = "table_store two_runs_tables"
  let ?A = "state_is ''pkg.c1'' ''complete''"
  let ?G = "state_is ''pkg.ghost'' ''complete''"
  have it: "items (Some [?A, ?G]) = [?A] @ ?G # []" by (simp add: items_def)
  have un: "component ?G \<notin> set (list_registered_components ?s)"
    by (simp add: list_registered_components_def state_is_def two_runs_tables_def store_eval)
  have sel: "\<not> (truthy (None :: string list option) \<and> truthy (None :: string list option))"
    by (simp add: truthy_def)
  have ini: "\<exists>ids. initial_target_context_ids ?s None None = Inr ids"
    by (simp add: initial_target_context_ids_def truthy_def)
  have pre: "\<forall>c \<in> set [?A]. \<exists>cs. list_contexts_by_condition ?s c = Inr cs"
    by (simp add: outcome_eval two_runs_tables_def store_eval)
  from unregistered_component_fails [OF it un, of None None None] sel ini pre
  have "get_outcomes ?s None None None (Some [?A, ?G]) = Inl AssertionError" by blast
  with it un show ?thesis by simp
qed

text \<open>
  The claim as stated fails: with both selectors given, the call fails on the
  selector check, before any condition is looked at, and not on the assertion.
\<close>

theorem both_selectors_before_assertion:
  "component (state_is ''pkg.ghost'' ''complete'')
       \<notin> set (list_registered_components (table_store two_runs_tables))
   \<and> get_outcomes (table_store two_runs_tables) (Some [''run-1'']) (Some [''run-1'']) None
        (Some [state_is ''pkg.ghost'' ''complete''])
       = Inl (PyException ''Cant define context id/names at the same time'')
   \<and> get_outcomes (table_store two_runs_tables) (Some [''run-1'']) (Some [''run-1'']) None
        (Some [state_is ''pkg.ghost'' ''complete''])
       \<noteq> Inl AssertionError"
  by (simp add: get_outcomes_def truthy_def list_registered_components_def state_is_def
      two_runs_tables_def store_eval)

end
